theory Spec2Isabelle
  imports Main
begin

section \<open>JavaScript values and string built-ins used by the schedule calendar\<close>

text \<open>
  Strings are lists of code units (those below 256). The numbers the calendar computes
  with are the integers read from time fields and a slot duration; \<open>NaN\<close> is what
  \<open>Number\<close> yields on a field that is no number, \<open>Undefined\<close> what array
  destructuring yields for a missing element.
\<close>

datatype jsnum = Num int | NaN | Undefined

datatype error = TypeError

definition isDigit :: "char \<Rightarrow> bool" where
  "isDigit c = (c \<in> set ''0123456789'')"

definition digitVal :: "char \<Rightarrow> nat" where
  "digitVal c = of_char c - 48"

text \<open>The decimal digit of a number below 10.\<close>

definition digitChar :: "nat \<Rightarrow> char" where
  "digitChar n = ''0123456789'' ! n"

text \<open>\<open>\s\<close> of a regular expression and the white space \<open>Number\<close> trims.\<close>

definition isSpace :: "char \<Rightarrow> bool" where
  "isSpace c = ((of_char c :: nat) \<in> {9, 10, 11, 12, 13, 32, 160})"

definition trim :: "string \<Rightarrow> string" where
  "trim s = rev (dropWhile isSpace (rev (dropWhile isSpace s)))"

definition digitsValue :: "string \<Rightarrow> nat" where
  "digitsValue s = foldl (\<lambda>acc c. 10 * acc + digitVal c) 0 s"

definition allDigits :: "string \<Rightarrow> bool" where
  "allDigits s = (s \<noteq> [] \<and> list_all isDigit s)"

text \<open>
  \<open>Number(s)\<close> on a string: white space is trimmed, the empty string is 0, an optionally
  signed run of decimal digits is its value. Every other string is \<open>NaN\<close> here; the
  fractional, exponent, radix-prefixed and \<open>Infinity\<close> literals of JavaScript are not
  integers of a time field and are outside this model.
\<close>

definition jsNumber :: "string \<Rightarrow> jsnum" where
  "jsNumber s =
     (case trim s of
        [] \<Rightarrow> Num 0
      | c # r \<Rightarrow>
          if c = CHR ''-'' \<and> allDigits r then Num (- int (digitsValue r))
          else if c = CHR ''+'' \<and> allDigits r then Num (int (digitsValue r))
          else if allDigits (c # r) then Num (int (digitsValue (c # r)))
          else NaN)"

fun digitsOf :: "nat \<Rightarrow> string" where
  "digitsOf n = (if n < 10 then [digitChar n] else digitsOf (n div 10) @ [digitChar (n mod 10)])"

declare digitsOf.simps [simp del]

text \<open>\<open>x.toString()\<close>; on \<open>undefined\<close> it throws a TypeError.\<close>

definition jsToString :: "jsnum \<Rightarrow> error + string" where
  "jsToString x =
     (case x of
        Num i \<Rightarrow> Inr (if i < 0 then CHR ''-'' # digitsOf (nat (- i)) else digitsOf (nat i))
      | NaN \<Rightarrow> Inr ''NaN''
      | Undefined \<Rightarrow> Inl TypeError)"

text \<open>\<open>s.padStart(2, '0')\<close>.\<close>

definition padStart2 :: "string \<Rightarrow> string" where
  "padStart2 s = replicate (2 - length s) (CHR ''0'') @ s"

text \<open>\<open>s.split(sep)\<close> for a one-character separator: never the empty array.\<close>

fun splitOn :: "char \<Rightarrow> string \<Rightarrow> string list" where
  "splitOn sep [] = [[]]"
| "splitOn sep (c # cs) =
     (if c = sep then [] # splitOn sep cs
      else (case splitOn sep cs of
              [] \<Rightarrow> [[c]]
            | p # ps \<Rightarrow> (c # p) # ps))"

text \<open>\<open>const [a, b] = s.split(':').map(Number)\<close>.\<close>

definition splitNumbers :: "string \<Rightarrow> jsnum \<times> jsnum" where
  "splitNumbers s =
     (case map jsNumber (splitOn (CHR '':'') s) of
        [] \<Rightarrow> (Undefined, Undefined)
      | [a] \<Rightarrow> (a, Undefined)
      | a # b # _ \<Rightarrow> (a, b))"

text \<open>\<open>s.includes(sub)\<close>: \<open>sub\<close> occurs in \<open>s\<close> as a contiguous substring.\<close>

fun includesStr :: "string \<Rightarrow> string \<Rightarrow> bool" where
  "includesStr [] sub = (sub = [])"
| "includesStr (c # cs) sub = (take (length sub) (c # cs) = sub \<or> includesStr cs sub)"

text \<open>Comparison and arithmetic of numbers: every comparison with \<open>NaN\<close> or
  \<open>undefined\<close> is false, every sum with one of them is \<open>NaN\<close>.\<close>

fun jsLess :: "jsnum \<Rightarrow> jsnum \<Rightarrow> bool" where
  "jsLess (Num a) (Num b) = (a < b)"
| "jsLess _ _ = False"

fun jsGe :: "jsnum \<Rightarrow> jsnum \<Rightarrow> bool" where
  "jsGe (Num a) (Num b) = (a \<ge> b)"
| "jsGe _ _ = False"

fun jsStrictEq :: "jsnum \<Rightarrow> jsnum \<Rightarrow> bool" where
  "jsStrictEq (Num a) (Num b) = (a = b)"
| "jsStrictEq Undefined Undefined = True"
| "jsStrictEq _ _ = False"

fun jsAdd :: "jsnum \<Rightarrow> jsnum \<Rightarrow> jsnum" where
  "jsAdd (Num a) (Num b) = Num (a + b)"
| "jsAdd _ _ = NaN"

text \<open>\<open>a % b\<close> takes the sign of the dividend; \<open>Math.floor(a / b)\<close> rounds down.\<close>

definition jsRem :: "jsnum \<Rightarrow> int \<Rightarrow> jsnum" where
  "jsRem x b =
     (case x of
        Num a \<Rightarrow> if b = 0 then NaN else Num (sgn a * (\<bar>a\<bar> mod \<bar>b\<bar>))
      | _ \<Rightarrow> NaN)"

definition jsFloorDiv :: "jsnum \<Rightarrow> int \<Rightarrow> jsnum" where
  "jsFloorDiv x b =
     (case x of
        Num a \<Rightarrow> if b = 0 then NaN else Num (a div b)
      | _ \<Rightarrow> NaN)"

text \<open>\<open>x || d\<close> on a number: 0 and \<open>NaN\<close> (and \<open>undefined\<close>) are falsy.\<close>

definition jsOrNum :: "jsnum \<Rightarrow> int \<Rightarrow> jsnum" where
  "jsOrNum x d = (case x of Num a \<Rightarrow> if a = 0 then Num d else Num a | _ \<Rightarrow> Num d)"

section \<open>ScheduleCalendar: time conversion\<close>

text \<open>\<open>formatTime\<close>: 24-hour \<open>HH:MM\<close> to the 12-hour form shown on a slot.\<close>

definition formatTime :: "string \<Rightarrow> error + string" where
  "formatTime time24 =
     (case splitNumbers time24 of
        (hours, minutes) \<Rightarrow>
          let period = (if jsGe hours (Num 12) then ''PM'' else ''AM'');
              hours12 = jsOrNum (jsRem hours 12) 12
          in (case jsToString hours12 of
                Inl e \<Rightarrow> Inl e
              | Inr hs \<Rightarrow>
                  (case jsToString minutes of
                     Inl e \<Rightarrow> Inl e
                   | Inr ms \<Rightarrow> Inr (padStart2 hs @ '':'' @ padStart2 ms @ '' '' @ period))))"

text \<open>
  The regular expression \<open>/(\d{1,2}):(\d{2})\s*(AM|PM)/i\<close>. \<open>matchAt\<close> matches it at
  the start of the string and returns the three groups; \<open>matchTime\<close> is
  \<open>String.match\<close>: the leftmost position that matches. The greedy choices never need
  undoing: after two digits a third character must be the colon, and AM and PM start with
  no white space.
\<close>

definition toUpper :: "char \<Rightarrow> char" where
  "toUpper c =
     (case map_of (zip ''abcdefghijklmnopqrstuvwxyz'' ''ABCDEFGHIJKLMNOPQRSTUVWXYZ'') c of
        None \<Rightarrow> c
      | Some u \<Rightarrow> u)"

definition matchAt :: "string \<Rightarrow> (string \<times> string \<times> string) option" where
  "matchAt s =
     (case s of
        [] \<Rightarrow> None
      | h1 # rest \<Rightarrow>
          if \<not> isDigit h1 then None
          else
            (case (case rest of
                     [] \<Rightarrow> ([h1], [])
                   | h2 # r \<Rightarrow> if isDigit h2 then ([h1, h2], r) else ([h1], rest)) of
               (hs, r1) \<Rightarrow>
                 (case r1 of
                    c # m1 # m2 # r2 \<Rightarrow>
                      if c = CHR '':'' \<and> isDigit m1 \<and> isDigit m2 then
                        (case dropWhile isSpace r2 of
                           p # q # _ \<Rightarrow>
                             if (toUpper p = CHR ''A'' \<or> toUpper p = CHR ''P'')
                                \<and> toUpper q = CHR ''M''
                             then Some (hs, [m1, m2], [p, q])
                             else None
                         | _ \<Rightarrow> None)
                      else None
                  | _ \<Rightarrow> None)))"

fun matchTime :: "string \<Rightarrow> (string \<times> string \<times> string) option" where
  "matchTime [] = matchAt []"
| "matchTime (c # cs) =
     (case matchAt (c # cs) of
        Some m \<Rightarrow> Some m
      | None \<Rightarrow> matchTime cs)"

text \<open>\<open>parseTime12to24\<close>: 12-hour time to 24-hour \<open>HH:MM\<close> for comparison.\<close>

definition parseTime12to24 :: "string \<Rightarrow> string" where
  "parseTime12to24 time12 =
     (case matchTime time12 of
        None \<Rightarrow> ''00:00''
      | Some (g1, minutes, g3) \<Rightarrow>
          let hours0 = int (digitsValue g1);
              period = map toUpper g3;
              hours1 = (if period = ''PM'' \<and> hours0 \<noteq> 12 then hours0 + 12 else hours0);
              hours = (if period = ''AM'' \<and> hours1 = 12 then 0 else hours1)
          in padStart2 (digitsOf (nat hours)) @ '':'' @ minutes)"

section \<open>ScheduleCalendar: the schedule, the appointments and the slots\<close>

text \<open>
  \<open>Schedule\<close> and \<open>Appointment\<close> are declared in the API module; their fields are
  those the component reads. An optional field that may be \<open>undefined\<close> is an
  \<open>option\<close>.
\<close>

record DaySetting =
  enabled :: bool
  start :: "string option"
  end' :: "string option"

record Schedule =
  weeklySchedule :: "string \<rightharpoonup> DaySetting"
  slotDuration :: "int option"

record Appointment =
  appt_id :: string
  appt_date :: string
  appt_time :: string
  appt_patientName :: "string option"

record TimeSlot =
  time :: string
  available :: bool
  patientName :: "string option"
  appointmentId :: "string option"

text \<open>\<open>s || d\<close> on an optional string: \<open>undefined\<close> and the empty string are falsy.\<close>

definition jsOrStr :: "string option \<Rightarrow> string \<Rightarrow> string" where
  "jsOrStr s d = (case s of None \<Rightarrow> d | Some v \<Rightarrow> if v = [] then d else v)"

text \<open>\<open>schedule.slotDuration || 30\<close>.\<close>

definition jsOrInt :: "int option \<Rightarrow> int \<Rightarrow> int" where
  "jsOrInt x d = (case x of None \<Rightarrow> d | Some v \<Rightarrow> if v = 0 then d else v)"

text \<open>The time of an appointment as the loop compares it (lines 106 to 109).\<close>

definition apptTime24 :: "Appointment \<Rightarrow> string" where
  "apptTime24 appt =
     (if includesStr (appt_time appt) ''AM'' \<or> includesStr (appt_time appt) ''PM''
      then parseTime12to24 (appt_time appt)
      else appt_time appt)"

text \<open>Lines 103 to 122: the slot pushed for one start time.\<close>

definition slotFor :: "Appointment list \<Rightarrow> string \<Rightarrow> string \<Rightarrow> string \<Rightarrow> TimeSlot" where
  "slotFor appointments date time24 time12 =
     (let dateAppointments = filter (\<lambda>appt. appt_date appt = date) appointments;
          matchingAppt = find (\<lambda>appt. apptTime24 appt = time24) dateAppointments
      in (case matchingAppt of
            Some appt \<Rightarrow>
              \<lparr>time = time12, available = False,
               patientName = Some (jsOrStr (appt_patientName appt) ''Patient''),
               appointmentId = Some (appt_id appt)\<rparr>
          | None \<Rightarrow>
              \<lparr>time = time12, available = True, patientName = None, appointmentId = None\<rparr>))"

text \<open>Lines 99 and 100: the two renderings of the current time.\<close>

definition time24Of :: "jsnum \<Rightarrow> jsnum \<Rightarrow> error + string" where
  "time24Of currentHour currentMin =
     (case jsToString currentHour of
        Inl e \<Rightarrow> Inl e
      | Inr hs \<Rightarrow>
          (case jsToString currentMin of
             Inl e \<Rightarrow> Inl e
           | Inr ms \<Rightarrow> Inr (padStart2 hs @ '':'' @ padStart2 ms)))"

definition loopSlot :: "Appointment list \<Rightarrow> string \<Rightarrow> jsnum \<Rightarrow> jsnum \<Rightarrow> error + TimeSlot" where
  "loopSlot appointments date currentHour currentMin =
     (case time24Of currentHour currentMin of
        Inl e \<Rightarrow> Inl e
      | Inr time24 \<Rightarrow>
          (case formatTime time24 of
             Inl e \<Rightarrow> Inl e
           | Inr time12 \<Rightarrow> Inr (slotFor appointments date time24 time12)))"

text \<open>Lines 125 to 129: advance by the slot duration.\<close>

definition advance :: "int \<Rightarrow> jsnum \<Rightarrow> jsnum \<Rightarrow> jsnum \<times> jsnum" where
  "advance slotDur currentHour currentMin =
     (let currentMin1 = jsAdd currentMin (Num slotDur)
      in if jsGe currentMin1 (Num 60)
         then (jsAdd currentHour (jsFloorDiv currentMin1 60), jsRem currentMin1 60)
         else (currentHour, currentMin1))"

text \<open>
  The \<open>while\<close> loop of lines 98 to 130. It need not terminate, so its result is an
  \<open>option\<close>: \<open>None\<close> is a loop that never returns, \<open>Some (Inl e)\<close> a thrown error,
  \<open>Some (Inr slots)\<close> the slots returned.
\<close>

partial_function (option) slotLoop ::
  "Appointment list \<Rightarrow> string \<Rightarrow> jsnum \<Rightarrow> jsnum \<Rightarrow> int \<Rightarrow> jsnum \<Rightarrow> jsnum \<Rightarrow> TimeSlot list
     \<Rightarrow> (error + TimeSlot list) option" where
  "slotLoop appointments date endHour endMin slotDur currentHour currentMin slots =
     (if jsLess currentHour endHour \<or> (jsStrictEq currentHour endHour \<and> jsLess currentMin endMin)
      then
        (case loopSlot appointments date currentHour currentMin of
           Inl e \<Rightarrow> Some (Inl e)
         | Inr slot \<Rightarrow>
             (case advance slotDur currentHour currentMin of
                (nextHour, nextMin) \<Rightarrow>
                  slotLoop appointments date endHour endMin slotDur nextHour nextMin
                    (slots @ [slot])))
      else Some (Inr slots))"

declare slotLoop.simps [code]

text \<open>
  \<open>generateTimeSlots\<close>. The component state it closes over (\<open>schedule\<close>,
  \<open>appointments\<close>) is passed in. \<open>dayName\<close> stands for lines 78 and 79,
  \<open>new Date(date).toLocaleDateString('en-US', {weekday: 'long'}).toLowerCase()\<close>, a
  function of the platform and its time zone.
\<close>

definition generateTimeSlots ::
  "(string \<Rightarrow> string) \<Rightarrow> Schedule option \<Rightarrow> Appointment list \<Rightarrow> string
     \<Rightarrow> (error + TimeSlot list) option" where
  "generateTimeSlots dayName schedule appointments date =
     (case schedule of
        None \<Rightarrow> Some (Inr [])
      | Some sched \<Rightarrow>
          (case weeklySchedule sched (dayName date) of
             None \<Rightarrow> Some (Inr [])
           | Some daySchedule \<Rightarrow>
               if \<not> enabled daySchedule then Some (Inr [])
               else
                 let startTime = jsOrStr (start daySchedule) ''09:00'';
                     endTime = jsOrStr (end' daySchedule) ''17:00'';
                     slotDur = jsOrInt (slotDuration sched) 30
                 in (case splitNumbers startTime of
                       (startHour, startMin) \<Rightarrow>
                         (case splitNumbers endTime of
                            (endHour, endMin) \<Rightarrow>
                              slotLoop appointments date endHour endMin slotDur
                                startHour startMin []))))"

section \<open>The specification's view of a working day\<close>

text \<open>
  Times of day are minutes since midnight. \<open>pad2\<close> is a number below 100 in two
  digits, \<open>clock\<close> the 24-hour \<open>HH:MM\<close> form, \<open>clock12\<close> the 12-hour
  \<open>hh:mm AM/PM\<close> form with zero-padded hour and minute.
\<close>

definition pad2 :: "nat \<Rightarrow> string" where
  "pad2 n = [digitChar (n div 10), digitChar (n mod 10)]"

definition clock :: "nat \<Rightarrow> nat \<Rightarrow> string" where
  "clock h m = pad2 h @ '':'' @ pad2 m"

definition clock12 :: "nat \<Rightarrow> nat \<Rightarrow> string" where
  "clock12 h m =
     pad2 (if h mod 12 = 0 then 12 else h mod 12) @ '':'' @ pad2 m @ '' ''
       @ (if h < 12 then ''AM'' else ''PM'')"

definition spec_time24 :: "int \<Rightarrow> string" where
  "spec_time24 t = clock (nat (t div 60)) (nat (t mod 60))"

definition spec_time12 :: "int \<Rightarrow> string" where
  "spec_time12 t = clock12 (nat (t div 60)) (nat (t mod 60))"

text \<open>
  The start times the specification asks for: \<open>st\<close>, \<open>st + d\<close>, \<open>st + 2d\<close>, ...,
  as many as lie below \<open>en\<close>.
\<close>

definition slotTimes :: "int \<Rightarrow> int \<Rightarrow> int \<Rightarrow> int list" where
  "slotTimes st en d = map (\<lambda>k. st + int k * d) [0..<nat ((en - st + d - 1) div d)]"

text \<open>The slot of the start time \<open>t\<close>: lines 103 to 122 at the two renderings of \<open>t\<close>.\<close>

definition slotAt :: "Appointment list \<Rightarrow> string \<Rightarrow> int \<Rightarrow> TimeSlot" where
  "slotAt appointments date t = slotFor appointments date (spec_time24 t) (spec_time12 t)"

text \<open>
  The time of day a schedule string stands for, read as the component reads it
  (\<open>split(':').map(Number)\<close>), when it is one: hours 0 to 23 and minutes 0 to 59.
\<close>

definition timeOfDay :: "string \<Rightarrow> int option" where
  "timeOfDay s =
     (case splitNumbers s of
        (Num h, Num m) \<Rightarrow>
          if 0 \<le> h \<and> h < 24 \<and> 0 \<le> m \<and> m < 60 then Some (60 * h + m) else None
      | _ \<Rightarrow> None)"

text \<open>
  The valid inputs of the specification: the weekday resolved for the date is enabled,
  its start and end (after the defaults of lines 86 and 87) are times of day, and the slot
  duration (after the default of line 88) is positive. The result is start, end and
  duration.
\<close>

definition workingDay ::
  "(string \<Rightarrow> string) \<Rightarrow> Schedule \<Rightarrow> string \<Rightarrow> (int \<times> int \<times> int) option" where
  "workingDay dayName sched date =
     (case weeklySchedule sched (dayName date) of
        None \<Rightarrow> None
      | Some daySchedule \<Rightarrow>
          if \<not> enabled daySchedule then None
          else
            (case (timeOfDay (jsOrStr (start daySchedule) ''09:00''),
                   timeOfDay (jsOrStr (end' daySchedule) ''17:00'')) of
               (Some st, Some en) \<Rightarrow>
                 if 0 < jsOrInt (slotDuration sched) 30
                 then Some (st, en, jsOrInt (slotDuration sched) 30)
                 else None
             | _ \<Rightarrow> None))"

text \<open>The time of day of a slot, read back from its label by the component's own parser.\<close>

definition slotMinute :: "TimeSlot \<Rightarrow> int option" where
  "slotMinute slot = timeOfDay (parseTime12to24 (time slot))"

section \<open>DoctorProfilePage: submitting a profile update\<close>

record ProfileData =
  pd_name :: string
  pd_specialty :: string
  pd_location :: string
  pd_experience :: int
  pd_image :: string

record PendingUpdate =
  hasPendingUpdate :: bool
  pendingData :: "ProfileData option"
  requestedAt :: "string option"

datatype MessageType = MsgSuccess | MsgError | MsgWarning

text \<open>
  The state of the page that \<open>handleSubmit\<close> reads and writes, and \<open>page_requests\<close>,
  the calls of \<open>doctorsApi.requestProfileUpdate\<close> sent so far.
\<close>

record ProfilePage =
  page_isSaving :: bool
  page_message :: "(MessageType \<times> string) option"
  page_pendingUpdate :: PendingUpdate
  page_formData :: ProfileData
  page_requests :: "ProfileData list"

text \<open>
  \<open>handleSubmit\<close> (lines 100 to 130). \<open>now\<close> is \<open>new Date().toISOString()\<close>,
  \<open>requestOk\<close> whether the awaited request resolves or throws.
\<close>

definition handleSubmit :: "string \<Rightarrow> bool \<Rightarrow> ProfilePage \<Rightarrow> ProfilePage" where
  "handleSubmit now requestOk page =
     (if hasPendingUpdate (page_pendingUpdate page) then
        page\<lparr>page_message :=
               Some (MsgWarning,
                 ''You already have a pending profile update awaiting admin approval.'')\<rparr>
      else
        (let page1 = page\<lparr>page_isSaving := True, page_message := None,
                          page_requests := page_requests page @ [page_formData page]\<rparr>
         in if requestOk then
              page1\<lparr>page_message :=
                      Some (MsgSuccess,
                        ''Profile update request submitted! Awaiting admin approval.''),
                    page_pendingUpdate :=
                      \<lparr>hasPendingUpdate = True, pendingData = Some (page_formData page),
                       requestedAt = Some now\<rparr>,
                    page_isSaving := False\<rparr>
            else
              page1\<lparr>page_message :=
                      Some (MsgError, ''Failed to submit profile update. Please try again.''),
                    page_isSaving := False\<rparr>))"

text \<open>\<open>handleChange\<close> (lines 90 to 98): the edited field of the form is replaced.\<close>

definition handleChange :: "(ProfileData \<Rightarrow> ProfileData) \<Rightarrow> ProfilePage \<Rightarrow> ProfilePage" where
  "handleChange edit page = page\<lparr>page_formData := edit (page_formData page)\<rparr>"

text \<open>The submit button (lines 389 to 392) is disabled while saving or pending.\<close>

definition submitDisabled :: "ProfilePage \<Rightarrow> bool" where
  "submitDisabled page = (page_isSaving page \<or> hasPendingUpdate (page_pendingUpdate page))"

text \<open>What the user can do on the page, and a run of such events.\<close>

datatype PageEvent = Submit string bool | Change "ProfileData \<Rightarrow> ProfileData"

fun pageStep :: "ProfilePage \<Rightarrow> PageEvent \<Rightarrow> ProfilePage" where
  "pageStep page (Submit now requestOk) = handleSubmit now requestOk page"
| "pageStep page (Change edit) = handleChange edit page"

definition runPage :: "ProfilePage \<Rightarrow> PageEvent list \<Rightarrow> ProfilePage" where
  "runPage page events = foldl pageStep page events"

section \<open>Example inputs\<close>

text \<open>A Monday from 09:00 to 10:00 in slots of 30 minutes, and three appointments.\<close>

definition exampleSchedule :: Schedule where
  "exampleSchedule =
     \<lparr>weeklySchedule =
        [''monday'' \<mapsto> \<lparr>enabled = True, start = Some ''09:00'', end' = Some ''10:00''\<rparr>],
      slotDuration = Some 30\<rparr>"

definition exampleAppointments :: "Appointment list" where
  "exampleAppointments =
     [\<lparr>appt_id = ''a1'', appt_date = ''2024-01-16'', appt_time = ''09:30'',
       appt_patientName = Some ''Ann''\<rparr>,
      \<lparr>appt_id = ''a2'', appt_date = ''2024-01-15'', appt_time = ''9:30 AM'',
       appt_patientName = None\<rparr>,
      \<lparr>appt_id = ''a3'', appt_date = ''2024-01-15'', appt_time = ''09:30'',
       appt_patientName = Some ''Bob''\<rparr>]"

text \<open>A profile page on which an update is pending.\<close>

definition examplePage :: ProfilePage where
  "examplePage =
     \<lparr>page_isSaving = False, page_message = None,
      page_pendingUpdate =
        \<lparr>hasPendingUpdate = True, pendingData = None, requestedAt = Some ''2024-01-10''\<rparr>,
      page_formData =
        \<lparr>pd_name = ''Dr. Rao'', pd_specialty = ''Cardiologist'', pd_location = ''Pune'',
         pd_experience = 12, pd_image = ''''\<rparr>,
      page_requests = []\<rparr>"

text \<open>A Monday whose start, end and slot duration are all left to the defaults.\<close>

definition defaultedSchedule :: Schedule where
  "defaultedSchedule =
     \<lparr>weeklySchedule = [''monday'' \<mapsto> \<lparr>enabled = True, start = None, end' = Some ''''\<rparr>],
      slotDuration = Some 0\<rparr>"

text \<open>The labels of a day from 09:00 to 17:00 in slots of 30 minutes.\<close>

definition defaultLabels :: "string list" where
  "defaultLabels =
     [''09:00 AM'', ''09:30 AM'', ''10:00 AM'', ''10:30 AM'', ''11:00 AM'', ''11:30 AM'',
      ''12:00 PM'', ''12:30 PM'', ''01:00 PM'', ''01:30 PM'', ''02:00 PM'', ''02:30 PM'',
      ''03:00 PM'', ''03:30 PM'', ''04:00 PM'', ''04:30 PM'']"


section \<open>ScheduleCalendar: generateTimeSlots on a store of arrays and objects\<close>














section \<open>ScheduleCalendar: the weekday of a date\<close>






section \<open>The normalisation the specification asks for\<close>

text \<open>
  The specification's rule for the time of an appointment: a string that contains AM or
  PM in any letter case is read as 12-hour time, any other string is taken as it stands.
  It differs from \<open>apptTime24\<close> only in the test, which there is for capitals.
\<close>

definition spec_apptTime24 :: "string \<Rightarrow> string" where
  "spec_apptTime24 t =
     (if includesStr (map toUpper t) ''AM'' \<or> includesStr (map toUpper t) ''PM''
      then parseTime12to24 t
      else t)"

text \<open>A Monday from 14:00 to 15:00, and Ann's appointment that day with its time stored
  as \<open>t\<close>.\<close>

definition afternoonSchedule :: Schedule where
  "afternoonSchedule =
     \<lparr>weeklySchedule =
        [''monday'' \<mapsto> \<lparr>enabled = True, start = Some ''14:00'', end' = Some ''15:00''\<rparr>],
      slotDuration = Some 30\<rparr>"

definition storedAs :: "string \<Rightarrow> Appointment" where
  "storedAs t =
     \<lparr>appt_id = ''a5'', appt_date = ''2024-01-15'', appt_time = t,
      appt_patientName = Some ''Ann''\<rparr>"

section \<open>Properties\<close>

lemma digit_cases: "k < 10 \<Longrightarrow> k = 0 \<or> k = 1 \<or> k = 2 \<or> k = 3 \<or> k = 4 \<or> k = 5 \<or> k = 6 \<or> k = 7 \<or> k = 8 \<or> k = (9::nat)"
  by arith

lemma digitChar_props:
  assumes "k < 10"
  shows "isDigit (digitChar k)" and "digitVal (digitChar k) = k"
    and "\<not> isSpace (digitChar k)" and "digitChar k \<noteq> CHR '':''"
    and "digitChar k \<noteq> CHR ''-''" and "digitChar k \<noteq> CHR ''+''"
  using digit_cases [OF assms]
  by (auto simp: isDigit_def digitVal_def digitChar_def isSpace_def)

lemma digitChar_0: "digitChar 0 = CHR ''0''"
  by (simp add: digitChar_def)

lemma digitsOf_small: "n < 10 \<Longrightarrow> digitsOf n = [digitChar n]"
  by (simp add: digitsOf.simps)

lemma digitsOf_two: "10 \<le> n \<Longrightarrow> n < 100 \<Longrightarrow> digitsOf n = [digitChar (n div 10), digitChar (n mod 10)]"
  by (subst digitsOf.simps) (simp add: digitsOf_small)

lemma padStart2_digitsOf: "n < 100 \<Longrightarrow> padStart2 (digitsOf n) = pad2 n"
  by (cases "n < 10") (simp_all add: padStart2_def pad2_def digitsOf_small digitsOf_two digitChar_0)

lemma digitsValue_pad2: "n < 100 \<Longrightarrow> digitsValue (pad2 n) = n"
proof -
  assume n: "n < 100"
  have a: "n div 10 < 10" and b: "n mod 10 < 10" using n by simp_all
  show ?thesis
    by (simp add: digitsValue_def pad2_def digitChar_props(2) [OF a] digitChar_props(2) [OF b])
qed

lemma jsNumber_pad2: "n < 100 \<Longrightarrow> jsNumber (pad2 n) = Num (int n)"
proof -
  assume n: "n < 100"
  have a: "n div 10 < 10" and b: "n mod 10 < 10" using n by simp_all
  have t: "trim (pad2 n) = [digitChar (n div 10), digitChar (n mod 10)]"
    by (simp add: trim_def pad2_def digitChar_props(3) [OF a] digitChar_props(3) [OF b])
  have d: "allDigits [digitChar (n div 10), digitChar (n mod 10)]"
    by (simp add: allDigits_def digitChar_props(1) [OF a] digitChar_props(1) [OF b])
  have v: "digitsValue [digitChar (n div 10), digitChar (n mod 10)] = n"
    using digitsValue_pad2 [OF n] by (simp add: pad2_def)
  show ?thesis
    by (simp add: jsNumber_def t d v digitChar_props(5,6) [OF a] )
qed

lemma splitOn_clock: "h < 100 \<Longrightarrow> m < 100 \<Longrightarrow> splitOn (CHR '':'') (clock h m) = [pad2 h, pad2 m]"
proof -
  assume "h < 100" "m < 100"
  then have "h div 10 < 10" "h mod 10 < 10" "m div 10 < 10" "m mod 10 < 10" by simp_all
  then show ?thesis
    by (simp add: clock_def pad2_def digitChar_props(4))
qed

lemma splitNumbers_clock: "h < 100 \<Longrightarrow> m < 100 \<Longrightarrow> splitNumbers (clock h m) = (Num (int h), Num (int m))"
  by (simp add: splitNumbers_def splitOn_clock jsNumber_pad2)

lemma time24Of_clock:
  "0 \<le> h \<Longrightarrow> h < 100 \<Longrightarrow> 0 \<le> m \<Longrightarrow> m < 100 \<Longrightarrow> time24Of (Num h) (Num m) = Inr (clock (nat h) (nat m))"
  by (simp add: time24Of_def jsToString_def padStart2_digitsOf clock_def)

lemma jsToString_nat: "jsToString (Num (int n)) = Inr (digitsOf n)"
  by (simp add: jsToString_def)

lemma hours12: "jsOrNum (jsRem (Num (int h)) 12) 12 = Num (int (if h mod 12 = 0 then 12 else h mod 12))"
proof -
  have "sgn (int h) * (\<bar>int h\<bar> mod 12) = int (h mod 12)"
    by (cases "h = 0") (simp_all add: zmod_int)
  then show ?thesis
    by (simp add: jsRem_def jsOrNum_def)
qed

lemma formatTime_clock:
  assumes "h < 100" "m < 100"
  shows "formatTime (clock h m) = Inr (clock12 h m)"
proof -
  have h12: "(if h mod 12 = 0 then 12 else h mod 12) < 100"
    by (simp add: less_trans [OF mod_less_divisor])
  have g: "jsGe (Num (int h)) (Num 12) = (\<not> h < 12)" by auto
  show ?thesis
    unfolding formatTime_def splitNumbers_clock [OF assms] prod.case Let_def hours12
      jsToString_nat sum.case padStart2_digitsOf [OF h12] padStart2_digitsOf [OF assms(2)] g
    by (simp add: clock12_def)
qed

lemma loopSlot_minute:
  assumes "0 \<le> t" "t < 1440"
  shows "loopSlot appointments date (Num (t div 60)) (Num (t mod 60)) = Inr (slotAt appointments date t)"
proof -
  have h: "0 \<le> t div 60" "t div 60 < 100" using assms by auto
  have m: "0 \<le> t mod 60" "t mod 60 < 100" by auto
  have hn: "nat (t div 60) < 100" "nat (t mod 60) < 100" using h m by auto
  show ?thesis
    by (simp add: loopSlot_def time24Of_clock [OF h m] formatTime_clock [OF hn]
        slotAt_def spec_time24_def spec_time12_def)
qed

lemma advance_minute:
  assumes "0 \<le> t" "0 < d"
  shows "advance d (Num (t div 60)) (Num (t mod 60)) = (Num ((t + d) div 60), Num ((t + d) mod 60))"
proof -
  define m where "m = t mod 60"
  define h where "h = t div 60"
  have t: "t = 60 * h + m" by (simp add: m_def h_def)
  have m: "0 \<le> m" "m < 60" by (simp_all add: m_def)
  have dv: "(t + d) div 60 = h + (m + d) div 60" unfolding t by simp
  have md: "(t + d) mod 60 = (m + d) mod 60" unfolding t by (simp add: add.assoc)
  show ?thesis
  proof (cases "60 \<le> m + d")
    case True
    then have "sgn (m + d) * (\<bar>m + d\<bar> mod 60) = (m + d) mod 60" by simp
    with True show ?thesis
      unfolding h_def [symmetric] m_def [symmetric] dv md
      by (simp add: advance_def jsRem_def jsFloorDiv_def)
  next
    case False
    then have "(m + d) div 60 = 0" "(m + d) mod 60 = m + d" using m assms by auto
    with False show ?thesis
      unfolding h_def [symmetric] m_def [symmetric] dv md
      by (simp add: advance_def)
  qed
qed

lemma slotTimes_Nil: "en \<le> st \<Longrightarrow> 0 < d \<Longrightarrow> slotTimes st en d = []"
proof -
  assume a: "en \<le> st" "0 < d"
  then have "en - st + d - 1 < d" by simp
  then have "(en - st + d - 1) div d \<le> 0"
    using a(2) by (smt (verit) div_pos_neg_trivial div_pos_pos_trivial pos_imp_zdiv_neg_iff)
  then show ?thesis by (simp add: slotTimes_def)
qed

lemma slotTimes_Cons: "st < en \<Longrightarrow> 0 < d \<Longrightarrow> slotTimes st en d = st # slotTimes (st + d) en d"
proof -
  assume a: "st < en" "0 < d"
  have e: "en - st + d - 1 = (en - (st + d) + d - 1) + 1 * d" by simp
  have "(en - st + d - 1) div d = (en - (st + d) + d - 1) div d + 1"
    unfolding e using a(2) by (subst div_mult_self1) simp_all
  moreover have "0 \<le> (en - (st + d) + d - 1) div d"
    using a by (simp add: pos_imp_zdiv_nonneg_iff)
  ultimately have n: "nat ((en - st + d - 1) div d) = Suc (nat ((en - (st + d) + d - 1) div d))"
    by simp
  show ?thesis
    unfolding slotTimes_def n
    by (simp add: upt_rec [of 0] map_Suc_upt [symmetric] algebra_simps del: upt_Suc)
qed

lemma lex_minutes:
  fixes h m eh em :: int
  assumes "0 \<le> m" "m < 60" "0 \<le> em" "em < 60"
  shows "(h < eh \<or> (h = eh \<and> m < em)) = (60 * h + m < 60 * eh + em)"
  using assms by auto

lemma loop_cond:
  assumes "0 \<le> em" "em < 60"
  shows "(jsLess (Num (t div 60)) (Num eh) \<or> (jsStrictEq (Num (t div 60)) (Num eh) \<and> jsLess (Num (t mod 60)) (Num em)))
     = (t < 60 * eh + em)"
proof -
  have m: "0 \<le> t mod 60" "t mod 60 < 60" by simp_all
  have "(t div 60 < eh \<or> (t div 60 = eh \<and> t mod 60 < em)) = (60 * (t div 60) + t mod 60 < 60 * eh + em)"
    by (rule lex_minutes [OF m assms])
  then show ?thesis by simp
qed

lemma slotLoop_valid:
  assumes "0 < d" "0 \<le> em" "em < 60" "60 * eh + em \<le> 1440"
  shows "0 \<le> t \<Longrightarrow>
    slotLoop appointments date (Num eh) (Num em) d (Num (t div 60)) (Num (t mod 60)) slots
      = Some (Inr (slots @ map (slotAt appointments date) (slotTimes t (60 * eh + em) d)))"
proof (induction "nat (60 * eh + em - t)" arbitrary: t slots rule: less_induct)
  case less
  show ?case
  proof (cases "t < 60 * eh + em")
    case False
    then have "slotTimes t (60 * eh + em) d = []"
      by (simp add: slotTimes_Nil assms(1))
    with False show ?thesis
      by (subst slotLoop.simps, subst loop_cond [OF assms(2,3)]) simp
  next
    case True
    then have t: "t < 1440" using assms(4) by simp
    have "nat (60 * eh + em - (t + d)) < nat (60 * eh + em - t)" using True assms(1) by simp
    moreover have "0 \<le> t + d" using less.prems assms(1) by simp
    ultimately have IH: "slotLoop appointments date (Num eh) (Num em) d (Num ((t + d) div 60)) (Num ((t + d) mod 60)) (slots @ [slotAt appointments date t])
      = Some (Inr ((slots @ [slotAt appointments date t]) @ map (slotAt appointments date) (slotTimes (t + d) (60 * eh + em) d)))"
      by (rule less.hyps)
    have step: "slotLoop appointments date (Num eh) (Num em) d (Num (t div 60)) (Num (t mod 60)) slots
      = slotLoop appointments date (Num eh) (Num em) d (Num ((t + d) div 60)) (Num ((t + d) mod 60)) (slots @ [slotAt appointments date t])"
      by (subst slotLoop.simps, subst loop_cond [OF assms(2,3)])
        (simp only: True if_True loopSlot_minute [OF less.prems t] sum.case
          advance_minute [OF less.prems assms(1)] prod.case)
    show ?thesis
      unfolding step IH slotTimes_Cons [OF True assms(1)] by simp
  qed
qed

lemma timeOfDay_SomeD:
  assumes "timeOfDay s = Some t"
  shows "splitNumbers s = (Num (t div 60), Num (t mod 60)) \<and> 0 \<le> t \<and> t < 1440 \<and> 0 \<le> t mod 60 \<and> t mod 60 < 60"
proof -
  obtain a b where ab: "splitNumbers s = (a, b)" by (cases "splitNumbers s")
  from assms ab obtain h m where hm: "a = Num h" "b = Num m" "0 \<le> h" "h < 24" "0 \<le> m" "m < 60" "t = 60 * h + m"
    by (auto simp: timeOfDay_def split: jsnum.splits if_splits)
  have "t div 60 = h" "t mod 60 = m" using hm by auto
  then show ?thesis using ab hm by auto
qed

lemma generateTimeSlots_working:
  assumes "workingDay dayName sched date = Some (st, en, d)"
  shows "generateTimeSlots dayName (Some sched) appointments date
           = Some (Inr (map (slotAt appointments date) (slotTimes st en d)))"
proof -
  from assms obtain ds where ds: "weeklySchedule sched (dayName date) = Some ds" "enabled ds"
    and st: "timeOfDay (jsOrStr (start ds) ''09:00'') = Some st"
    and en: "timeOfDay (jsOrStr (end' ds) ''17:00'') = Some en"
    and d: "0 < d" "jsOrInt (slotDuration sched) 30 = d"
    by (auto simp: workingDay_def split: option.splits if_splits)
  note S = timeOfDay_SomeD [OF st] and E = timeOfDay_SomeD [OF en]
  have e: "60 * (en div 60) + en mod 60 = en" by simp
  have "slotLoop appointments date (Num (en div 60)) (Num (en mod 60)) d (Num (st div 60)) (Num (st mod 60)) []
      = Some (Inr ([] @ map (slotAt appointments date) (slotTimes st (60 * (en div 60) + en mod 60) d)))"
    by (rule slotLoop_valid) (use d S E in \<open>simp_all only: e\<close>, simp_all)
  then show ?thesis
    unfolding e by (simp add: generateTimeSlots_def ds S E d Let_def)
qed

lemma slotTimes_nth: "k < length (slotTimes st en d) \<Longrightarrow> slotTimes st en d ! k = st + int k * d"
  by (simp add: slotTimes_def)

lemma slotTimes_length_iff:
  assumes "0 < d"
  shows "k < length (slotTimes st en d) \<longleftrightarrow> st + int k * d < en"
proof (induction k arbitrary: st)
  case 0
  show ?case
    by (cases "st < en") (simp_all add: slotTimes_Cons slotTimes_Nil assms)
next
  case (Suc k)
  show ?case
  proof (cases "st < en")
    case True
    then show ?thesis
      using Suc [of "st + d"] by (simp add: slotTimes_Cons assms algebra_simps)
  next
    case False
    have "0 \<le> int (Suc k) * d" using assms by simp
    with False have "\<not> st + int (Suc k) * d < en" by linarith
    with False show ?thesis by (simp add: slotTimes_Nil assms)
  qed
qed

lemma slotTimes_set:
  assumes "0 < d"
  shows "t \<in> set (slotTimes st en d) \<longleftrightarrow> (\<exists>k::nat. t = st + int k * d \<and> t < en)"
proof
  assume "t \<in> set (slotTimes st en d)"
  then obtain k where k: "k < length (slotTimes st en d)" "slotTimes st en d ! k = t"
    by (auto simp: in_set_conv_nth)
  then have "t = st + int k * d" by (simp add: slotTimes_nth)
  moreover have "st + int k * d < en" using k(1) slotTimes_length_iff [OF assms] by blast
  ultimately show "\<exists>k::nat. t = st + int k * d \<and> t < en" by blast
next
  assume "\<exists>k::nat. t = st + int k * d \<and> t < en"
  then obtain k :: nat where k: "t = st + int k * d" "t < en" by blast
  then have "k < length (slotTimes st en d)" using slotTimes_length_iff [OF assms] by blast
  then show "t \<in> set (slotTimes st en d)"
    using k(1) slotTimes_nth nth_mem by metis
qed

lemma slotTimes_sorted:
  assumes "0 < d"
  shows "sorted_wrt (<) (slotTimes st en d)"
  unfolding slotTimes_def using assms by (simp add: sorted_wrt_map sorted_wrt_iff_nth_less)

lemma slotTimes_bounds:
  assumes "0 < d" "t \<in> set (slotTimes st en d)"
  shows "st \<le> t \<and> t < en"
proof -
  from assms obtain k :: nat where k: "t = st + int k * d" "t < en"
    using slotTimes_set by blast
  have "0 \<le> int k * d" using assms(1) by simp
  with k show ?thesis by simp
qed

lemma find_filter_None:
  "find P (filter Q xs) = None \<longleftrightarrow> \<not> (\<exists>a \<in> set xs. Q a \<and> P a)"
  by (induction xs) auto

lemma find_filter_SomeD:
  "find P (filter Q xs) = Some a \<Longrightarrow> a \<in> set xs \<and> Q a \<and> P a"
  by (induction xs) (auto split: if_splits)

lemma slotFor_available:
  "available (slotFor appointments date time24 time12)
     \<longleftrightarrow> \<not> (\<exists>a \<in> set appointments. appt_date a = date \<and> apptTime24 a = time24)"
proof (cases "find (\<lambda>appt. apptTime24 appt = time24) (filter (\<lambda>appt. appt_date appt = date) appointments)")
  case None
  then show ?thesis
    using find_filter_None [of "\<lambda>appt. apptTime24 appt = time24" "\<lambda>appt. appt_date appt = date" appointments]
    by (simp add: slotFor_def)
next
  case (Some a)
  then show ?thesis
    using find_filter_SomeD [OF Some] by (auto simp: slotFor_def)
qed

lemma slotFor_free:
  "available (slotFor appointments date time24 time12)
     \<Longrightarrow> slotFor appointments date time24 time12
           = \<lparr>time = time12, available = True, patientName = None, appointmentId = None\<rparr>"
  by (auto simp: slotFor_def Let_def split: option.splits)

lemma slotFor_time: "time (slotFor appointments date time24 time12) = time12"
  by (simp add: slotFor_def Let_def split: option.splits)

lemma find_filter_first:
  assumes "\<forall>b \<in> set pre. \<not> (Q b \<and> P b)" "Q a" "P a"
  shows "find P (filter Q (pre @ a # post)) = Some a"
  using assms by (induction pre) auto

lemma slotFor_first:
  assumes "\<forall>b \<in> set pre. \<not> (appt_date b = date \<and> apptTime24 b = time24)"
    and "appt_date a = date" "apptTime24 a = time24"
  shows "slotFor (pre @ a # post) date time24 time12
           = \<lparr>time = time12, available = False,
               patientName = Some (jsOrStr (appt_patientName a) ''Patient''),
               appointmentId = Some (appt_id a)\<rparr>"
  using find_filter_first [of pre "\<lambda>b. appt_date b = date" "\<lambda>b. apptTime24 b = time24" a post] assms
  by (simp add: slotFor_def Let_def)

lemma first_match_split:
  assumes "\<exists>a \<in> set xs. P a"
  shows "\<exists>pre a post. xs = pre @ a # post \<and> P a \<and> (\<forall>b \<in> set pre. \<not> P b)"
  using assms by (rule split_list_first_prop)

lemma slotFor_cong:
  assumes "map (\<lambda>a. (appt_date a, apptTime24 a, appt_patientName a, appt_id a)) xs
         = map (\<lambda>a. (appt_date a, apptTime24 a, appt_patientName a, appt_id a)) ys"
  shows "slotFor xs date time24 time12 = slotFor ys date time24 time12"
  using assms
proof (induction xs arbitrary: ys)
  case Nil
  then show ?case by simp
next
  case (Cons x xs)
  then obtain y ys' where ys: "ys = y # ys'" by (cases ys) auto
  with Cons.prems have h: "appt_date x = appt_date y" "apptTime24 x = apptTime24 y"
    "appt_patientName x = appt_patientName y" "appt_id x = appt_id y"
    and t: "map (\<lambda>a. (appt_date a, apptTime24 a, appt_patientName a, appt_id a)) xs
         = map (\<lambda>a. (appt_date a, apptTime24 a, appt_patientName a, appt_id a)) ys'"
    by auto
  from Cons.IH [OF t] show ?case
    unfolding ys by (auto simp: slotFor_def Let_def h)
qed

lemma parse_2pm: "parseTime12to24 ''2:00 PM'' = ''14:00''"
  by code_simp

lemma includes_2pm: "includesStr ''2:00 PM'' ''PM''"
  by code_simp

lemma includes_1400: "\<not> includesStr ''14:00'' ''PM''" "\<not> includesStr ''14:00'' ''AM''"
  by code_simp+

lemma apptTime24_2pm: "apptTime24 (a\<lparr>appt_time := ''2:00 PM''\<rparr>) = ''14:00''"
  by (simp add: apptTime24_def parse_2pm)

lemma apptTime24_1400: "apptTime24 (a\<lparr>appt_time := ''14:00''\<rparr>) = ''14:00''"
  by (simp add: apptTime24_def)

lemma generate_slots_nth:
  assumes "workingDay dayName sched date = Some (st, en, d)"
  shows "\<exists>slots. generateTimeSlots dayName (Some sched) appointments date = Some (Inr slots)
           \<and> length slots = length (slotTimes st en d)
           \<and> (\<forall>k < length slots. slots ! k = slotAt appointments date (slotTimes st en d ! k))"
  by (simp add: generateTimeSlots_working [OF assms])


lemma slotAt_time: "time (slotAt appointments date t) = spec_time12 t"
  by (simp add: slotAt_def slotFor_time)

lemma tod1: "timeOfDay ''09:00'' = Some 540"
  by code_simp

lemma tod2: "timeOfDay ''10:00'' = Some 600"
  by code_simp

lemma tod3: "timeOfDay ''17:00'' = Some 1020"
  by code_simp

lemma example_workingDay:
  "workingDay (\<lambda>_. ''monday'') exampleSchedule ''2024-01-15'' = Some (540, 600, 30)"
  by (simp add: workingDay_def exampleSchedule_def jsOrStr_def jsOrInt_def tod1 tod2)

lemma example_slotTimes: "slotTimes 540 600 30 = [540, 570]"
  by (simp add: slotTimes_Cons slotTimes_Nil)

lemma example_labels: "spec_time12 540 = ''09:00 AM''" "spec_time12 570 = ''09:30 AM''"
  "spec_time24 540 = ''09:00''" "spec_time24 570 = ''09:30''"
  by (simp_all add: spec_time12_def spec_time24_def clock_def clock12_def pad2_def digitChar_def)

lemma p930: "parseTime12to24 ''9:30 AM'' = ''09:30''"
  by code_simp

lemma example_apptTime24:
  "map (\<lambda>a. (appt_id a, appt_date a, apptTime24 a)) exampleAppointments
     = [(''a1'', ''2024-01-16'', ''09:30''), (''a2'', ''2024-01-15'', ''09:30''),
        (''a3'', ''2024-01-15'', ''09:30'')]"
  by (simp add: exampleAppointments_def apptTime24_def p930)

lemma handleSubmit_pending:
  assumes "hasPendingUpdate (page_pendingUpdate page)"
  shows "handleSubmit now requestOk page =
           page\<lparr>page_message :=
                  Some (MsgWarning,
                    ''You already have a pending profile update awaiting admin approval.'')\<rparr>"
  using assms by (simp add: handleSubmit_def)

lemma pageStep_pending:
  assumes "hasPendingUpdate (page_pendingUpdate page)"
  shows "page_requests (pageStep page ev) = page_requests page
         \<and> page_pendingUpdate (pageStep page ev) = page_pendingUpdate page"
  using assms by (cases ev) (simp_all add: handleSubmit_pending handleChange_def)

lemma runPage_pending:
  assumes "hasPendingUpdate (page_pendingUpdate page)"
  shows "page_requests (runPage page events) = page_requests page
         \<and> page_pendingUpdate (runPage page events) = page_pendingUpdate page"
  using assms unfolding runPage_def
proof (induction events arbitrary: page)
  case Nil
  then show ?case by simp
next
  case (Cons ev events)
  have "hasPendingUpdate (page_pendingUpdate (pageStep page ev))"
    using pageStep_pending [OF Cons.prems] Cons.prems by simp
  from Cons.IH [OF this] pageStep_pending [OF Cons.prems, of ev] show ?case by simp
qed

lemma default_day_labels: "map spec_time12 (slotTimes 540 1020 30) = defaultLabels"
  by (simp add: slotTimes_Cons slotTimes_Nil spec_time12_def clock12_def pad2_def digitChar_def
      defaultLabels_def)

lemma jsOrStr_idem: "jsOrStr (Some (jsOrStr s d)) d = jsOrStr s d"
  by (simp add: jsOrStr_def split: option.splits)

lemma jsOrInt_idem: "jsOrInt (Some (jsOrInt x d)) d = jsOrInt x d"
  by (simp add: jsOrInt_def split: option.splits)

lemma generateTimeSlots_defaults:
  assumes "weeklySchedule sched (dayName date) = Some ds" "enabled ds"
  shows "generateTimeSlots dayName (Some sched) appointments date
       = generateTimeSlots dayName
           (Some (sched\<lparr>weeklySchedule := (weeklySchedule sched)
                          (dayName date \<mapsto> ds\<lparr>start := Some (jsOrStr (start ds) ''09:00''),
                                              end' := Some (jsOrStr (end' ds) ''17:00'')\<rparr>),
                        slotDuration := Some (jsOrInt (slotDuration sched) 30)\<rparr>))
           appointments date"
  using assms by (simp add: generateTimeSlots_def jsOrStr_idem jsOrInt_idem)

lemma zero_duration_example_workingDay:
  "workingDay (\<lambda>_. ''monday'') (exampleSchedule\<lparr>slotDuration := Some 0\<rparr>) ''2024-01-15''
     = Some (540, 600, 30)"
  by (simp add: workingDay_def exampleSchedule_def jsOrStr_def jsOrInt_def tod1 tod2)

lemma defaulted_workingDay:
  "workingDay (\<lambda>_. ''monday'') defaultedSchedule ''2024-01-15'' = Some (540, 1020, 30)"
  by (simp add: workingDay_def defaultedSchedule_def jsOrStr_def jsOrInt_def tod1 tod3)

lemma p930_lower: "parseTime12to24 ''9:30 am'' = ''09:30''"
  by code_simp

lemma workingDay_bounds:
  assumes "workingDay dayName sched date = Some (st, en, d)"
  shows "0 \<le> st \<and> en < 1440 \<and> 0 < d"
proof -
  from assms obtain ds :: DaySetting where st: "timeOfDay (jsOrStr (start ds) ''09:00'') = Some st"
    and en: "timeOfDay (jsOrStr (end' ds) ''17:00'') = Some en"
    and d: "0 < d" "jsOrInt (slotDuration sched) 30 = d"
    by (auto simp: workingDay_def split: option.splits if_splits)
  show ?thesis
    using timeOfDay_SomeD [OF st] timeOfDay_SomeD [OF en] d(1) by simp
qed

lemma matchAt_cons:
  assumes "isDigit a" "isDigit b" "isDigit c" "isDigit d"
    and "\<not> isSpace p" "toUpper p = CHR ''A'' \<or> toUpper p = CHR ''P''" "toUpper q = CHR ''M''"
  shows "matchAt (a # b # CHR '':'' # c # d # CHR '' '' # p # q # rest)
           = Some ([a, b], [c, d], [p, q])"
proof -
  have sp: "isSpace (CHR '' '')" by (simp add: isSpace_def)
  show ?thesis
    using assms sp by (simp add: matchAt_def)
qed

lemma parse_pad2:
  assumes "h12 < 100" "m < 100"
    and "\<not> isSpace p" "toUpper p = CHR ''A'' \<or> toUpper p = CHR ''P''"
  shows "matchTime (pad2 h12 @ '':'' @ pad2 m @ '' '' @ [p, CHR ''M''])
           = Some (pad2 h12, pad2 m, [p, CHR ''M''])"
proof -
  have d: "h12 div 10 < 10" "h12 mod 10 < 10" "m div 10 < 10" "m mod 10 < 10"
    using assms by simp_all
  have M: "toUpper (CHR ''M'') = CHR ''M''" by (simp add: toUpper_def)
  have "matchAt (digitChar (h12 div 10) # digitChar (h12 mod 10) # CHR '':''
          # digitChar (m div 10) # digitChar (m mod 10) # CHR '' '' # p # CHR ''M'' # [])
        = Some ([digitChar (h12 div 10), digitChar (h12 mod 10)],
                [digitChar (m div 10), digitChar (m mod 10)], [p, CHR ''M''])"
    by (rule matchAt_cons [OF digitChar_props(1) [OF d(1)] digitChar_props(1) [OF d(2)]
          digitChar_props(1) [OF d(3)] digitChar_props(1) [OF d(4)] assms(3,4) M])
  then show ?thesis
    by (simp add: pad2_def)
qed

lemma toUpper_AMP:
  "toUpper (CHR ''A'') = CHR ''A''" "toUpper (CHR ''M'') = CHR ''M''"
  "toUpper (CHR ''P'') = CHR ''P''"
  by (simp_all add: toUpper_def)

lemma parseTime12to24_am:
  assumes "h < 12" "m < 60"
  shows "parseTime12to24 (clock12 h m) = clock h m"
proof -
  define h12 where "h12 = (if h = 0 then 12 else h)"
  have h12: "h12 < 100" using assms by (simp add: h12_def)
  have m: "m < 100" using assms by simp
  have c: "clock12 h m = pad2 h12 @ '':'' @ pad2 m @ '' '' @ [CHR ''A'', CHR ''M'']"
    using assms by (simp add: clock12_def h12_def)
  have A: "\<not> isSpace (CHR ''A'')" "toUpper (CHR ''A'') = CHR ''A'' \<or> toUpper (CHR ''A'') = CHR ''P''"
    by (simp_all add: isSpace_def toUpper_def)
  have p: "parseTime12to24 (clock12 h m)
      = padStart2 (digitsOf (nat (if int h12 = 12 then 0 else int h12))) @ '':'' @ pad2 m"
    unfolding parseTime12to24_def c parse_pad2 [OF h12 m A] option.case prod.case Let_def
      digitsValue_pad2 [OF h12]
    by (simp add: toUpper_AMP)
  have "nat (if int h12 = 12 then 0 else int h12) = h"
    using assms by (simp add: h12_def)
  moreover have "h < 100" using assms by simp
  ultimately show ?thesis
    unfolding p by (simp add: padStart2_digitsOf clock_def)
qed

lemma parseTime12to24_pm:
  assumes "12 \<le> h" "h < 24" "m < 60"
  shows "parseTime12to24 (clock12 h m) = clock h m"
proof -
  define h12 where "h12 = (if h = 12 then 12 else h - 12)"
  have "h - 12 < 100" using assms by linarith
  then have h12: "h12 < 100" by (simp add: h12_def)
  have m: "m < 100" using assms by simp
  have md: "h mod 12 = h - 12" using assms by (simp add: mod_if)
  have c: "clock12 h m = pad2 h12 @ '':'' @ pad2 m @ '' '' @ [CHR ''P'', CHR ''M'']"
    using assms by (auto simp: clock12_def h12_def md)
  have P: "\<not> isSpace (CHR ''P'')" "toUpper (CHR ''P'') = CHR ''A'' \<or> toUpper (CHR ''P'') = CHR ''P''"
    by (simp_all add: isSpace_def toUpper_def)
  have p: "parseTime12to24 (clock12 h m)
      = padStart2 (digitsOf (nat (if int h12 \<noteq> 12 then int h12 + 12 else int h12))) @ '':'' @ pad2 m"
    unfolding parseTime12to24_def c parse_pad2 [OF h12 m P] option.case prod.case Let_def
      digitsValue_pad2 [OF h12]
    by (simp add: toUpper_AMP)
  have "nat (if int h12 \<noteq> 12 then int h12 + 12 else int h12) = h"
    using assms by (auto simp: h12_def)
  moreover have "h < 100" using assms by simp
  ultimately show ?thesis
    unfolding p by (simp add: padStart2_digitsOf clock_def)
qed

lemma parseTime12to24_clock12:
  assumes "h < 24" "m < 60"
  shows "parseTime12to24 (clock12 h m) = clock h m"
  using assms parseTime12to24_am [of h m] parseTime12to24_pm [of h m]
  by (cases "h < 12") simp_all

lemma distinct_of_distinct_map: "distinct (map f xs) \<Longrightarrow> distinct xs"
  by (induction xs) auto

lemma timeOfDay_clock:
  assumes "h < 24" "m < 60"
  shows "timeOfDay (clock h m) = Some (60 * int h + int m)"
  using assms by (simp add: timeOfDay_def splitNumbers_clock)

lemma slotMinute_slotAt:
  assumes "0 \<le> t" "t < 1440"
  shows "slotMinute (slotAt appointments date t) = Some t"
proof -
  have d: "0 \<le> t div 60" "t div 60 < 24" "0 \<le> t mod 60" "t mod 60 < 60"
    using assms by auto
  have h: "nat (t div 60) < 24" "nat (t mod 60) < 60" using d by auto
  have "60 * int (nat (t div 60)) + int (nat (t mod 60)) = 60 * (t div 60) + t mod 60"
    using d by simp
  also have "\<dots> = t" by simp
  finally show ?thesis
    unfolding slotMinute_def slotAt_time spec_time12_def parseTime12to24_clock12 [OF h]
      timeOfDay_clock [OF h]
    by simp
qed

text \<open>
  A negative slot duration is not replaced by the default. On a day whose start hour lies
  before its end hour the minutes then only decrease, the hour never advances, and the loop
  never returns.
\<close>

lemma splitOn_nonempty: "splitOn c s \<noteq> []"
proof (induction s)
  case Nil
  show ?case by simp
next
  case (Cons x s)
  then show ?case by (cases "splitOn c s") simp_all
qed

lemma splitOn_two_parts: "2 \<le> length (splitOn c (xs @ c # ys))"
proof (induction xs)
  case Nil
  then show ?case
    using splitOn_nonempty [of c ys] by (cases "splitOn c ys") simp_all
next
  case (Cons x xs)
  then show ?case
    by (cases "splitOn c (xs @ c # ys)") auto
qed

lemma jsNumber_defined: "jsNumber s \<noteq> Undefined"
  by (simp add: jsNumber_def split: list.splits)

lemma splitNumbers_colon:
  "\<exists>a b. splitNumbers (xs @ CHR '':'' # ys) = (a, b) \<and> b \<noteq> Undefined"
proof -
  from splitOn_two_parts [of "CHR '':''" xs ys]
  obtain p q rest where "splitOn (CHR '':'') (xs @ CHR '':'' # ys) = p # q # rest"
    by (cases "splitOn (CHR '':'') (xs @ CHR '':'' # ys)" rule: list.exhaust [case_names Nil Cons])
      (auto simp: Suc_le_eq neq_Nil_conv)
  then show ?thesis
    by (simp add: splitNumbers_def jsNumber_defined)
qed

lemma jsToString_defined: "x \<noteq> Undefined \<Longrightarrow> \<exists>s. jsToString x = Inr s"
  by (cases x) (simp_all add: jsToString_def)

lemma formatTime_colon: "\<exists>s. formatTime (xs @ CHR '':'' # ys) = Inr s"
proof -
  obtain a b where ab: "splitNumbers (xs @ CHR '':'' # ys) = (a, b)" "b \<noteq> Undefined"
    using splitNumbers_colon by blast
  have "jsOrNum (jsRem a 12) 12 \<noteq> Undefined"
    by (simp add: jsOrNum_def split: jsnum.splits)
  then obtain hs where hs: "jsToString (jsOrNum (jsRem a 12) 12) = Inr hs"
    using jsToString_defined by blast
  obtain ms where ms: "jsToString b = Inr ms"
    using jsToString_defined [OF ab(2)] by blast
  show ?thesis
    by (simp add: formatTime_def ab(1) Let_def hs ms)
qed

lemma loopSlot_numbers: "\<exists>slot. loopSlot appointments date (Num h) (Num m) = Inr slot"
proof -
  obtain hs ms where t: "time24Of (Num h) (Num m) = Inr (padStart2 hs @ CHR '':'' # padStart2 ms)"
    by (simp add: time24Of_def jsToString_def)
  obtain s where "formatTime (padStart2 hs @ CHR '':'' # padStart2 ms) = Inr s"
    using formatTime_colon by blast
  then show ?thesis
    by (simp add: loopSlot_def t)
qed

lemma slotLoop_negative_step:
  assumes "slotLoop appointments date endHour endMin slotDur currentHour currentMin slots = Some y"
  shows "\<not> (slotDur < 0 \<and> (\<exists>h eh m. currentHour = Num h \<and> endHour = Num eh
                \<and> currentMin = Num m \<and> h < eh \<and> m < 60))"
proof (rule slotLoop.raw_induct
    [where P = "\<lambda>appointments date endHour endMin slotDur currentHour currentMin slots y.
        \<not> (slotDur < 0 \<and> (\<exists>h eh m. currentHour = Num h \<and> endHour = Num eh
                \<and> currentMin = Num m \<and> h < eh \<and> m < 60))", OF _ assms])
  fix loop :: "Appointment list \<Rightarrow> string \<Rightarrow> jsnum \<Rightarrow> jsnum \<Rightarrow> int \<Rightarrow> jsnum \<Rightarrow> jsnum
      \<Rightarrow> TimeSlot list \<Rightarrow> (error + TimeSlot list) option"
  fix ap dt eH eM dur cH cM sl r
  assume IH: "\<And>ap dt eH eM dur cH cM sl r. loop ap dt eH eM dur cH cM sl = Some r \<Longrightarrow>
      \<not> (dur < 0 \<and> (\<exists>h eh m. cH = Num h \<and> eH = Num eh \<and> cM = Num m \<and> h < eh \<and> m < 60))"
  assume eq: "(if jsLess cH eH \<or> jsStrictEq cH eH \<and> jsLess cM eM
      then case loopSlot ap dt cH cM of
             Inl e \<Rightarrow> Some (Inl e)
           | Inr slot \<Rightarrow>
               (case advance dur cH cM of
                  (nextHour, nextMin) \<Rightarrow> loop ap dt eH eM dur nextHour nextMin (sl @ [slot]))
      else Some (Inr sl)) = Some r"
  show "\<not> (dur < 0 \<and> (\<exists>h eh m. cH = Num h \<and> eH = Num eh \<and> cM = Num m \<and> h < eh \<and> m < 60))"
  proof
    assume "dur < 0 \<and> (\<exists>h eh m. cH = Num h \<and> eH = Num eh \<and> cM = Num m \<and> h < eh \<and> m < 60)"
    then obtain h eh m where inv: "dur < 0" "cH = Num h" "eH = Num eh" "cM = Num m"
      "h < eh" "m < 60"
      by blast
    obtain slot where slot: "loopSlot ap dt (Num h) (Num m) = Inr slot"
      using loopSlot_numbers by blast
    have adv: "advance dur (Num h) (Num m) = (Num h, Num (m + dur))"
      using inv(1,6) by (simp add: advance_def)
    have "loop ap dt (Num eh) eM dur (Num h) (Num (m + dur)) (sl @ [slot]) = Some r"
      using eq unfolding inv(2,3,4) slot adv by (simp add: inv(5))
    from IH [OF this] show False
      using inv by simp
  qed
qed

lemma slotLoop_negative_duration_never_returns:
  assumes "slotDur < 0" "h < eh" "m < 60"
  shows "slotLoop appointments date (Num eh) endMin slotDur (Num h) (Num m) slots = None"
proof (cases "slotLoop appointments date (Num eh) endMin slotDur (Num h) (Num m) slots")
  case None
  then show ?thesis .
next
  case (Some y)
  from slotLoop_negative_step [OF Some] assms show ?thesis by simp
qed

lemma negative_duration_example:
  "generateTimeSlots (\<lambda>_. ''monday'') (Some (exampleSchedule\<lparr>slotDuration := Some (- 30)\<rparr>))
     appointments ''2024-01-15'' = None"
proof -
  have s: "splitNumbers ''09:00'' = (Num 9, Num 0)" "splitNumbers ''10:00'' = (Num 10, Num 0)"
    by code_simp+
  show ?thesis
    by (simp add: generateTimeSlots_def exampleSchedule_def jsOrStr_def jsOrInt_def s
        slotLoop_negative_duration_never_returns)
qed


text \<open>
  Occupancy as the loop decides it: on a working day a slot is unavailable if and only if
  some appointment has the query date and a time that \<open>apptTime24\<close> (the comparison of
  lines 106 to 110) makes equal to the start time of the slot.
\<close>

lemma slot_occupancy:
  assumes "workingDay dayName sched date = Some (st, en, d)"
  shows "\<exists>slots. generateTimeSlots dayName (Some sched) appointments date = Some (Inr slots)
           \<and> length slots = length (slotTimes st en d)
           \<and> (\<forall>k < length slots.
                 (\<not> available (slots ! k) \<longleftrightarrow>
                    (\<exists>a \<in> set appointments. appt_date a = date
                        \<and> apptTime24 a = spec_time24 (slotTimes st en d ! k)))
               \<and> (available (slots ! k) \<longrightarrow>
                    patientName (slots ! k) = None \<and> appointmentId (slots ! k) = None)
               \<and> (\<not> available (slots ! k) \<longrightarrow>
                    (\<exists>a \<in> set appointments. appt_date a = date
                        \<and> apptTime24 a = spec_time24 (slotTimes st en d ! k)
                        \<and> patientName (slots ! k) = Some (jsOrStr (appt_patientName a) ''Patient'')
                        \<and> appointmentId (slots ! k) = Some (appt_id a))))
           \<and> generateTimeSlots dayName (Some sched) (pre @ a\<lparr>appt_time := ''14:00''\<rparr> # post) date
             = generateTimeSlots dayName (Some sched) (pre @ a\<lparr>appt_time := ''2:00 PM''\<rparr> # post) date"
proof -
  have slot: "(\<not> available (slotAt appointments date t) \<longleftrightarrow>
                    (\<exists>a \<in> set appointments. appt_date a = date \<and> apptTime24 a = spec_time24 t))
               \<and> (available (slotAt appointments date t) \<longrightarrow>
                    patientName (slotAt appointments date t) = None \<and> appointmentId (slotAt appointments date t) = None)
               \<and> (\<not> available (slotAt appointments date t) \<longrightarrow>
                    (\<exists>a \<in> set appointments. appt_date a = date
                        \<and> apptTime24 a = spec_time24 t
                        \<and> patientName (slotAt appointments date t) = Some (jsOrStr (appt_patientName a) ''Patient'')
                        \<and> appointmentId (slotAt appointments date t) = Some (appt_id a)))" for t
  proof (cases "available (slotAt appointments date t)")
    case True
    then show ?thesis
      using slotFor_available [of appointments date "spec_time24 t" "spec_time12 t"]
        slotFor_free [of appointments date "spec_time24 t" "spec_time12 t"]
      by (simp add: slotAt_def)
  next
    case False
    then have "\<exists>a \<in> set appointments. appt_date a = date \<and> apptTime24 a = spec_time24 t"
      using slotFor_available [of appointments date "spec_time24 t" "spec_time12 t"]
      by (simp add: slotAt_def)
    then obtain pre' a' post' where sp: "appointments = pre' @ a' # post'"
      "appt_date a' = date \<and> apptTime24 a' = spec_time24 t"
      "\<forall>b \<in> set pre'. \<not> (appt_date b = date \<and> apptTime24 b = spec_time24 t)"
      using first_match_split [of appointments "\<lambda>a. appt_date a = date \<and> apptTime24 a = spec_time24 t"]
      by blast
    have "slotAt appointments date t = \<lparr>time = spec_time12 t, available = False,
       patientName = Some (jsOrStr (appt_patientName a') ''Patient''),
       appointmentId = Some (appt_id a')\<rparr>"
      unfolding slotAt_def sp(1) using sp(2,3) by (intro slotFor_first) auto
    moreover have "a' \<in> set appointments" using sp(1) by simp
    ultimately show ?thesis using sp(2) False by auto
  qed
  have "slotAt (pre @ a\<lparr>appt_time := ''14:00''\<rparr> # post) date t
      = slotAt (pre @ a\<lparr>appt_time := ''2:00 PM''\<rparr> # post) date t" for t
    unfolding slotAt_def
    by (rule slotFor_cong) (simp add: apptTime24_2pm apptTime24_1400)
  then have "generateTimeSlots dayName (Some sched) (pre @ a\<lparr>appt_time := ''14:00''\<rparr> # post) date
             = generateTimeSlots dayName (Some sched) (pre @ a\<lparr>appt_time := ''2:00 PM''\<rparr> # post) date"
    by (simp add: generateTimeSlots_working [OF assms])
  then show ?thesis
    using slot by (simp add: generateTimeSlots_working [OF assms])
qed














lemma tod_afternoon: "timeOfDay ''14:00'' = Some 840" "timeOfDay ''15:00'' = Some 900"
  by code_simp+

lemma afternoon_workingDay:
  "workingDay (\<lambda>_. ''monday'') afternoonSchedule ''2024-01-15'' = Some (840, 900, 30)"
  by (simp add: workingDay_def afternoonSchedule_def jsOrStr_def jsOrInt_def tod_afternoon)

lemma afternoon_slotTimes: "slotTimes 840 900 30 = [840, 870]"
  by (simp add: slotTimes_Cons slotTimes_Nil)

lemma afternoon_labels: "spec_time12 840 = ''02:00 PM''" "spec_time12 870 = ''02:30 PM''"
  "spec_time24 840 = ''14:00''" "spec_time24 870 = ''14:30''"
  by (simp_all add: spec_time12_def spec_time24_def clock_def clock12_def pad2_def digitChar_def)

lemma parse_2pm_lower: "parseTime12to24 ''2:00 pm'' = ''14:00''"
  by code_simp

lemma spec_2pm_lower: "spec_apptTime24 ''2:00 pm'' = ''14:00''"
  by (simp add: spec_apptTime24_def toUpper_def parse_2pm_lower)

lemma stored_times:
  "apptTime24 (storedAs ''14:00'') = ''14:00''"
  "apptTime24 (storedAs ''2:00 PM'') = ''14:00''"
  "apptTime24 (storedAs ''2:00 pm'') = ''2:00 pm''"
  by (simp_all add: storedAs_def apptTime24_def parse_2pm)



subsection \<open>Disabled days\<close>

text \<open>
  C5: when the weekday resolved for the date has no day setting in the template, or its
  setting is not enabled, generateTimeSlots returns the empty sequence, whatever the
  appointments and the slot duration are; the result is a normal return, different from
  every thrown error and from a loop that never returns.
\<close>

theorem C5_disabled_day_empty:
  assumes "weeklySchedule sched (dayName date) = None
           \<or> (\<exists>daySchedule. weeklySchedule sched (dayName date) = Some daySchedule
                 \<and> \<not> enabled daySchedule)"
  shows "generateTimeSlots dayName (Some sched) appointments date = Some (Inr [])
         \<and> generateTimeSlots dayName (Some sched) appointments date \<noteq> None
         \<and> (\<forall>e. generateTimeSlots dayName (Some sched) appointments date \<noteq> Some (Inl e))"
  using assms by (auto simp: generateTimeSlots_def)

theorem C5_disabled_day_empty_witness:
  "generateTimeSlots (\<lambda>_. ''sunday'')
       (Some \<lparr>weeklySchedule =
                 [''sunday'' \<mapsto> \<lparr>enabled = False, start = Some ''09:00'', end' = Some ''17:00''\<rparr>],
              slotDuration = Some (- 5)\<rparr>)
       [\<lparr>appt_id = ''a1'', appt_date = ''2024-01-14'', appt_time = ''09:00'',
         appt_patientName = Some ''Ann''\<rparr>]
       ''2024-01-14''
     = Some (Inr [])"
  using C5_disabled_day_empty
    [of "\<lparr>weeklySchedule =
             [''sunday'' \<mapsto> \<lparr>enabled = False, start = Some ''09:00'', end' = Some ''17:00''\<rparr>],
           slotDuration = Some (- 5)\<rparr>"
        "\<lambda>_. ''sunday''" "''2024-01-14''"]
  by simp

subsection \<open>Working days\<close>



text \<open>
  C10: on a working day, when the first appointment of the list that matches the date and
  the start time of slot \<open>k\<close> is \<open>a\<close> (no appointment before it matches, any may
  follow), slot \<open>k\<close> is unavailable, carries the id of \<open>a\<close>, and is named after
  \<open>a\<close>, or Patient when the patient name of \<open>a\<close> is missing or empty.
\<close>

theorem C10_occupant_name_and_first_match:
  assumes "workingDay dayName sched date = Some (st, en, d)"
    and "k < length (slotTimes st en d)"
    and "appt_date a = date"
    and "apptTime24 a = spec_time24 (slotTimes st en d ! k)"
    and "\<forall>b \<in> set pre. \<not> (appt_date b = date \<and> apptTime24 b = spec_time24 (slotTimes st en d ! k))"
  shows "\<exists>slots. generateTimeSlots dayName (Some sched) (pre @ a # post) date = Some (Inr slots)
           \<and> k < length slots
           \<and> slots ! k =
               \<lparr>time = spec_time12 (slotTimes st en d ! k),
                available = False,
                patientName = Some (case appt_patientName a of
                                      None \<Rightarrow> ''Patient''
                                    | Some n \<Rightarrow> if n = [] then ''Patient'' else n),
                appointmentId = Some (appt_id a)\<rparr>"
proof -
  have "slotAt (pre @ a # post) date (slotTimes st en d ! k) =
      \<lparr>time = spec_time12 (slotTimes st en d ! k), available = False,
       patientName = Some (jsOrStr (appt_patientName a) ''Patient''),
       appointmentId = Some (appt_id a)\<rparr>"
    unfolding slotAt_def by (rule slotFor_first [OF assms(5,3,4)])
  then show ?thesis
    using assms(2) by (simp add: generateTimeSlots_working [OF assms(1)] jsOrStr_def)
qed

theorem C10_occupant_name_and_first_match_witness:
  "\<exists>slots. generateTimeSlots (\<lambda>_. ''monday'') (Some exampleSchedule) exampleAppointments
               ''2024-01-15'' = Some (Inr slots)
           \<and> slots ! 1 = \<lparr>time = ''09:30 AM'', available = False,
                           patientName = Some ''Patient'', appointmentId = Some ''a2''\<rparr>"
proof -
  have "\<exists>slots. generateTimeSlots (\<lambda>_. ''monday'') (Some exampleSchedule)
          ([\<lparr>appt_id = ''a1'', appt_date = ''2024-01-16'', appt_time = ''09:30'',
             appt_patientName = Some ''Ann''\<rparr>]
           @ \<lparr>appt_id = ''a2'', appt_date = ''2024-01-15'', appt_time = ''9:30 AM'',
               appt_patientName = None\<rparr>
           # [\<lparr>appt_id = ''a3'', appt_date = ''2024-01-15'', appt_time = ''09:30'',
               appt_patientName = Some ''Bob''\<rparr>])
          ''2024-01-15'' = Some (Inr slots)
        \<and> 1 < length slots
        \<and> slots ! 1 =
            \<lparr>time = spec_time12 (slotTimes 540 600 30 ! 1), available = False,
             patientName = Some (case appt_patientName
                   \<lparr>appt_id = ''a2'', appt_date = ''2024-01-15'', appt_time = ''9:30 AM'',
                    appt_patientName = None\<rparr> of
                 None \<Rightarrow> ''Patient''
               | Some n \<Rightarrow> if n = [] then ''Patient'' else n),
             appointmentId = Some (appt_id
                   \<lparr>appt_id = ''a2'', appt_date = ''2024-01-15'', appt_time = ''9:30 AM'',
                    appt_patientName = None\<rparr>)\<rparr>"
    by (rule C10_occupant_name_and_first_match [OF example_workingDay])
      (simp_all add: example_slotTimes example_labels apptTime24_def p930)
  then show ?thesis
    by (auto simp: exampleAppointments_def example_slotTimes example_labels)
qed

subsection \<open>The pending-update gate\<close>

text \<open>
  C7: while a profile update is pending, a submission sends no request: the list of
  requests and the pending update are unchanged, a warning is shown in their place, and the
  submit button is disabled. No run of submissions and form edits on the page sends a
  request or clears the pending flag; clearing it is left to the admin's approve or reject
  on the server.
\<close>

theorem C7_pending_update_gate:
  assumes "hasPendingUpdate (page_pendingUpdate page)"
  shows "page_requests (handleSubmit now requestOk page) = page_requests page
         \<and> page_message (handleSubmit now requestOk page)
             = Some (MsgWarning,
                 ''You already have a pending profile update awaiting admin approval.'')
         \<and> page_pendingUpdate (handleSubmit now requestOk page) = page_pendingUpdate page
         \<and> submitDisabled page
         \<and> page_requests (runPage page events) = page_requests page
         \<and> hasPendingUpdate (page_pendingUpdate (runPage page events))"
  using assms runPage_pending [OF assms, of events]
  by (simp add: handleSubmit_pending submitDisabled_def)

theorem C7_pending_update_gate_witness:
  "page_requests (handleSubmit ''2024-01-15T10:00:00Z'' True examplePage) = []
   \<and> page_message (handleSubmit ''2024-01-15T10:00:00Z'' True examplePage)
       = Some (MsgWarning,
           ''You already have a pending profile update awaiting admin approval.'')
   \<and> page_requests (runPage examplePage
         [Submit ''2024-01-15T10:00:00Z'' True, Change (\<lambda>d. d\<lparr>pd_location := ''Goa''\<rparr>),
          Submit ''2024-01-15T10:01:00Z'' False]) = []
   \<and> hasPendingUpdate (page_pendingUpdate (runPage examplePage
         [Submit ''2024-01-15T10:00:00Z'' True, Change (\<lambda>d. d\<lparr>pd_location := ''Goa''\<rparr>),
          Submit ''2024-01-15T10:01:00Z'' False]))"
proof -
  have p: "hasPendingUpdate (page_pendingUpdate examplePage)"
    by (simp add: examplePage_def)
  have r: "page_requests examplePage = []"
    by (simp add: examplePage_def)
  show ?thesis
    using C7_pending_update_gate [OF p, of "''2024-01-15T10:00:00Z''" True
        "[Submit ''2024-01-15T10:00:00Z'' True, Change (\<lambda>d. d\<lparr>pd_location := ''Goa''\<rparr>),
          Submit ''2024-01-15T10:01:00Z'' False]"]
    by (simp add: r)
qed

subsection \<open>Defaults and non-positive durations\<close>

text \<open>
  C9: on an enabled day generateTimeSlots runs as if a missing or empty start were 09:00,
  a missing or empty end 17:00, and a missing or zero slot duration 30 minutes. With all
  three defaulted it reports no error and returns the sixteen slots from 09:00 AM to
  04:30 PM.
\<close>

theorem C9_defaults:
  assumes "weeklySchedule sched (dayName date) = Some ds" and "enabled ds"
  shows "generateTimeSlots dayName (Some sched) appointments date
       = generateTimeSlots dayName
           (Some (sched\<lparr>weeklySchedule := (weeklySchedule sched)
                    (dayName date \<mapsto>
                       ds\<lparr>start := Some (case start ds of
                                           None \<Rightarrow> ''09:00''
                                         | Some s \<Rightarrow> if s = [] then ''09:00'' else s),
                          end' := Some (case end' ds of
                                          None \<Rightarrow> ''17:00''
                                        | Some s \<Rightarrow> if s = [] then ''17:00'' else s)\<rparr>),
                  slotDuration := Some (case slotDuration sched of
                                          None \<Rightarrow> 30
                                        | Some n \<Rightarrow> if n = 0 then 30 else n)\<rparr>))
           appointments date
     \<and> ((start ds = None \<or> start ds = Some [])
          \<and> (end' ds = None \<or> end' ds = Some [])
          \<and> (slotDuration sched = None \<or> slotDuration sched = Some 0)
        \<longrightarrow> (\<exists>slots. generateTimeSlots dayName (Some sched) appointments date
                          = Some (Inr slots)
                    \<and> map time slots = defaultLabels))"
proof -
  have "(start ds = None \<or> start ds = Some [])
          \<and> (end' ds = None \<or> end' ds = Some [])
          \<and> (slotDuration sched = None \<or> slotDuration sched = Some 0)
        \<Longrightarrow> workingDay dayName sched date = Some (540, 1020, 30)"
    using assms by (auto simp: workingDay_def jsOrStr_def jsOrInt_def tod1 tod3)
  then have "(start ds = None \<or> start ds = Some [])
          \<and> (end' ds = None \<or> end' ds = Some [])
          \<and> (slotDuration sched = None \<or> slotDuration sched = Some 0)
        \<longrightarrow> (\<exists>slots. generateTimeSlots dayName (Some sched) appointments date
                          = Some (Inr slots)
                    \<and> map time slots = defaultLabels)"
    using generateTimeSlots_working [of dayName sched date 540 1020 30 appointments]
    by (simp add: slotAt_time default_day_labels [symmetric])
  moreover note generateTimeSlots_defaults
      [where dayName = dayName and date = date and appointments = appointments, OF assms]
  ultimately show ?thesis
    by (simp add: jsOrStr_def jsOrInt_def)
qed

theorem C9_defaults_witness:
  "\<exists>slots. generateTimeSlots (\<lambda>_. ''monday'') (Some defaultedSchedule) exampleAppointments
              ''2024-01-15'' = Some (Inr slots)
         \<and> map time slots = defaultLabels"
  using C9_defaults [THEN conjunct2, of defaultedSchedule "\<lambda>_. ''monday''" "''2024-01-15''"
      "\<lparr>enabled = True, start = None, end' = Some ''''\<rparr>" exampleAppointments]
  by (simp add: defaultedSchedule_def)

text \<open>
  C4 as the code has it: a slot duration of zero, or a missing one, is not rejected. The
  loop runs with the default of 30 minutes: on a working day it terminates and returns the
  slots at steps of 30 minutes, with no error.
\<close>

theorem C4_zero_duration_uses_default:
  assumes "slotDuration sched = Some 0 \<or> slotDuration sched = None"
    and "workingDay dayName sched date = Some (st, en, d)"
  shows "d = 30
       \<and> (\<exists>slots. generateTimeSlots dayName (Some sched) appointments date = Some (Inr slots)
              \<and> map time slots = map spec_time12 (slotTimes st en 30))"
proof -
  have "d = 30"
    using assms by (auto simp: workingDay_def jsOrInt_def split: option.splits if_splits)
  then show ?thesis
    using generateTimeSlots_working [OF assms(2), of appointments]
    by (simp add: slotAt_time)
qed

theorem C4_zero_duration_uses_default_witness:
  "\<exists>slots. generateTimeSlots (\<lambda>_. ''monday'') (Some (exampleSchedule\<lparr>slotDuration := Some 0\<rparr>))
              exampleAppointments ''2024-01-15'' = Some (Inr slots)
         \<and> map time slots = [''09:00 AM'', ''09:30 AM'']"
  using C4_zero_duration_uses_default [OF _ zero_duration_example_workingDay,
      of exampleAppointments]
  by (simp add: example_slotTimes example_labels)

theorem C4_zero_duration_counterexample:
  "generateTimeSlots (\<lambda>_. ''monday'') (Some (exampleSchedule\<lparr>slotDuration := Some 0\<rparr>)) []
       ''2024-01-15''
     = Some (Inr [\<lparr>time = ''09:00 AM'', available = True, patientName = None,
                   appointmentId = None\<rparr>,
                  \<lparr>time = ''09:30 AM'', available = True, patientName = None,
                   appointmentId = None\<rparr>])"
  by (simp add: generateTimeSlots_working [OF zero_duration_example_workingDay]
      example_slotTimes slotAt_def slotFor_def example_labels)

subsection \<open>Order of the slots\<close>

text \<open>
  C6: on a working day (the valid inputs: an enabled day, valid start and end times, a
  positive duration) the times of day of the returned slots, read back from their labels,
  are the start times \<open>st\<close>, \<open>st + d\<close>, ... in strictly ascending order, and no two
  slots have the same label.
\<close>

theorem C6_strictly_ascending_distinct:
  assumes "workingDay dayName sched date = Some (st, en, d)"
  shows "\<exists>slots. generateTimeSlots dayName (Some sched) appointments date = Some (Inr slots)
           \<and> map slotMinute slots = map Some (slotTimes st en d)
           \<and> sorted_wrt (<) (slotTimes st en d)
           \<and> distinct (map time slots)"
proof -
  note b = workingDay_bounds [OF assms]
  define slots where "slots = map (slotAt appointments date) (slotTimes st en d)"
  have g: "generateTimeSlots dayName (Some sched) appointments date = Some (Inr slots)"
    unfolding slots_def by (rule generateTimeSlots_working [OF assms])
  have m: "map slotMinute slots = map Some (slotTimes st en d)"
  proof -
    have "slotMinute (slotAt appointments date t) = Some t" if "t \<in> set (slotTimes st en d)" for t
    proof -
      from slotTimes_bounds [of d t st en] that b have "0 \<le> t" "t < 1440" by auto
      then show ?thesis by (rule slotMinute_slotAt)
    qed
    then show ?thesis by (simp add: slots_def)
  qed
  have s: "sorted_wrt (<) (slotTimes st en d)"
    using b by (simp add: slotTimes_sorted)
  then have "distinct (slotTimes st en d)"
    by (simp add: strict_sorted_iff)
  then have "distinct (map Some (slotTimes st en d))"
    by (simp add: distinct_map)
  then have "distinct (map (\<lambda>l. timeOfDay (parseTime12to24 l)) (map time slots))"
    using m by (simp add: slotMinute_def [abs_def] comp_def)
  then have "distinct (map time slots)"
    by (rule distinct_of_distinct_map)
  with g m s show ?thesis by blast
qed

theorem C6_strictly_ascending_distinct_witness:
  "\<exists>slots. generateTimeSlots (\<lambda>_. ''monday'') (Some exampleSchedule) exampleAppointments
               ''2024-01-15'' = Some (Inr slots)
           \<and> map slotMinute slots = [Some 540, Some 570]
           \<and> distinct (map time slots)"
  using C6_strictly_ascending_distinct [OF example_workingDay, of exampleAppointments]
  by (auto simp: example_slotTimes)

subsection \<open>Lower-case AM and PM\<close>

text \<open>
  C3 at an appointment stored as 9:30 am: parseTime12to24 alone reads the lower-case
  marker and gives 09:30, but the loop calls it only for a time that includes AM or PM in
  capitals, so the time is compared as it stands, matches no slot, and the slot at
  09:30 AM stays available.
\<close>

theorem C3_lowercase_marker_not_parsed:
  "parseTime12to24 ''9:30 am'' = ''09:30''
   \<and> apptTime24 \<lparr>appt_id = ''a4'', appt_date = ''2024-01-15'', appt_time = ''9:30 am'',
                  appt_patientName = Some ''Ann''\<rparr> = ''9:30 am''
   \<and> generateTimeSlots (\<lambda>_. ''monday'') (Some exampleSchedule)
        [\<lparr>appt_id = ''a4'', appt_date = ''2024-01-15'', appt_time = ''9:30 am'',
          appt_patientName = Some ''Ann''\<rparr>] ''2024-01-15''
       = Some (Inr [\<lparr>time = ''09:00 AM'', available = True, patientName = None,
                     appointmentId = None\<rparr>,
                    \<lparr>time = ''09:30 AM'', available = True, patientName = None,
                     appointmentId = None\<rparr>])"
  by (simp add: p930_lower generateTimeSlots_working [OF example_workingDay]
      example_slotTimes slotAt_def slotFor_def example_labels apptTime24_def)

subsection \<open>Purity\<close>




subsection \<open>Occupancy and the letter case of the marker\<close>

text \<open>
  C2 at an appointment stored as 2:00 pm: stored as 14:00 or as 2:00 PM it takes the slot
  at 02:00 PM, with the patient's name and the id attached. Stored as 2:00 pm its time
  normalises to 14:00 by the specification's rule, the start time of that slot, but the
  loop compares the string as it stands and the slot stays available.
\<close>

theorem C2_lowercase_time_not_matched:
  "spec_apptTime24 ''2:00 pm'' = ''14:00''
   \<and> generateTimeSlots (\<lambda>_. ''monday'') (Some afternoonSchedule) [storedAs ''14:00'']
        ''2024-01-15''
       = Some (Inr [\<lparr>time = ''02:00 PM'', available = False, patientName = Some ''Ann'',
                     appointmentId = Some ''a5''\<rparr>,
                    \<lparr>time = ''02:30 PM'', available = True, patientName = None,
                     appointmentId = None\<rparr>])
   \<and> generateTimeSlots (\<lambda>_. ''monday'') (Some afternoonSchedule) [storedAs ''2:00 PM'']
        ''2024-01-15''
       = Some (Inr [\<lparr>time = ''02:00 PM'', available = False, patientName = Some ''Ann'',
                     appointmentId = Some ''a5''\<rparr>,
                    \<lparr>time = ''02:30 PM'', available = True, patientName = None,
                     appointmentId = None\<rparr>])
   \<and> generateTimeSlots (\<lambda>_. ''monday'') (Some afternoonSchedule) [storedAs ''2:00 pm'']
        ''2024-01-15''
       = Some (Inr [\<lparr>time = ''02:00 PM'', available = True, patientName = None,
                     appointmentId = None\<rparr>,
                    \<lparr>time = ''02:30 PM'', available = True, patientName = None,
                     appointmentId = None\<rparr>])"
proof -
  have d: "appt_date (storedAs t) = ''2024-01-15''" "appt_id (storedAs t) = ''a5''"
    "appt_patientName (storedAs t) = Some ''Ann''" for t
    by (simp_all add: storedAs_def)
  show ?thesis
    by (simp add: spec_2pm_lower generateTimeSlots_working [OF afternoon_workingDay]
        afternoon_slotTimes slotAt_def slotFor_def afternoon_labels stored_times d jsOrStr_def)
qed

end
